theory Spec2Isabelle
  imports Main
begin

section \<open>Strings\<close>

text \<open>
  The form fields and file names of \<^verbatim>\<open>app.py\<close> are Python \<^verbatim>\<open>str\<close> values. They are
  modelled as \<^typ>\<open>string\<close>, each \<^typ>\<open>char\<close> standing for one code point below 256.
  \<^verbatim>\<open>str.strip()\<close> removes leading and trailing white space, which in that range is
  the code points 9 to 13, 28 to 32, 133 and 160; \<^verbatim>\<open>str.lower()\<close> maps A to Z and the
  upper-case letters 192 to 222 (215 apart) to their lower-case forms, 32 further on.
\<close>

definition isspace :: "char \<Rightarrow> bool" where
  "isspace c =
     (let n = (of_char c :: nat)
      in (9 \<le> n \<and> n \<le> 13) \<or> (28 \<le> n \<and> n \<le> 32) \<or> n = 133 \<or> n = 160)"

definition strip :: "string \<Rightarrow> string" where
  "strip s = rev (dropWhile isspace (rev (dropWhile isspace s)))"

definition lower_char :: "char \<Rightarrow> char" where
  "lower_char c =
     (let n = (of_char c :: nat)
      in if (65 \<le> n \<and> n \<le> 90) \<or> (192 \<le> n \<and> n \<le> 214) \<or> (216 \<le> n \<and> n \<le> 222)
         then char_of (n + 32) else c)"

definition lower :: "string \<Rightarrow> string" where
  "lower s = map lower_char s"

text \<open>\<^verbatim>\<open>str(n)\<close> for an integer: its decimal digits, with a minus sign when negative.\<close>

definition digit_char :: "nat \<Rightarrow> char" where
  "digit_char d = char_of (48 + d)"

fun digits :: "nat \<Rightarrow> string" where
  "digits n = (if n < 10 then [digit_char n] else digits (n div 10) @ [digit_char (n mod 10)])"

declare digits.simps [simp del]

definition str_int :: "int \<Rightarrow> string" where
  "str_int i = (if i < 0 then CHR ''-'' # digits (nat (- i)) else digits (nat i))"

text \<open>
  \<^verbatim>\<open>s.rsplit(sep, 1)\<close> for a one-character separator: the text before the last
  separator and the text after it, or the whole string alone when it has no separator.
\<close>

definition rsplit1 :: "char \<Rightarrow> string \<Rightarrow> string list" where
  "rsplit1 sep s =
     (if sep \<in> set s
      then [rev (tl (dropWhile (\<lambda>c. c \<noteq> sep) (rev s))), rev (takeWhile (\<lambda>c. c \<noteq> sep) (rev s))]
      else [s])"

section \<open>Models\<close>

text \<open>
  The three tables of \<^verbatim>\<open>app.py\<close>. Each table is the list of its rows in insertion order.
  The primary key \<^verbatim>\<open>id\<close> of each model is \<open>user_id\<close>, \<open>proj_id\<close>, \<open>bid_id\<close>, and the
  column \<^verbatim>\<open>Project.image\<close> is \<open>image_file\<close>. The column \<^verbatim>\<open>created_at\<close>, which none of the
  handlers below reads, is left out.
\<close>

record user =
  user_id :: nat
  username :: string
  display_name :: string
  email :: string
  password_hash :: string
  bio :: "string option"

record project =
  proj_id :: nat
  title :: string
  description :: string
  budget :: string
  owner_id :: nat
  image_file :: "string option"

record bid =
  bid_id :: nat
  price :: string
  message :: string
  project_id :: nat
  bidder_id :: nat
  accepted :: bool

text \<open>
  The database, together with the names of the files saved under \<^verbatim>\<open>UPLOAD_FOLDER\<close>.
\<close>

record db =
  users :: "user list"
  projects :: "project list"
  bids :: "bid list"
  uploads :: "string list"

definition empty_db :: db where
  "empty_db = \<lparr>users = [], projects = [], bids = [], uploads = []\<rparr>"

text \<open>
  An integer primary key is assigned by the database on insert: one more than the
  largest key of the table, starting from 1.
\<close>

definition next_id :: "nat list \<Rightarrow> nat" where
  "next_id ids = Suc (foldr max ids 0)"

section \<open>Responses\<close>

text \<open>
  What a handler answers. The failures are \<open>LoginRequired\<close> (the redirect of
  \<^verbatim>\<open>@login_required\<close>), \<open>InvalidInput\<close> (a required field is empty: flash and redirect back
  to the form), \<open>DuplicateIdentity\<close> (the flash of line 130), \<open>InvalidCredentials\<close> (the
  flash of line 156), \<open>NotFound\<close> (\<^verbatim>\<open>get_or_404\<close>, \<^verbatim>\<open>first_or_404\<close>) and \<open>Forbidden\<close>
  (\<^verbatim>\<open>abort(403)\<close>). A success is the page the handler redirects to.

  A handler takes the identity resolved from the session (\<^verbatim>\<open>current_user\<close>: the id of the
  authenticated user, or \<open>None\<close> when anonymous) and the database, and returns its answer,
  the identity the session holds afterwards and the database afterwards.
\<close>

datatype error =
  LoginRequired | InvalidInput | DuplicateIdentity | InvalidCredentials | NotFound | Forbidden

datatype page = Index | Dashboard | ProjectDetail nat

type_synonym outcome = "(error + page) \<times> nat option \<times> db"

section \<open>Allowed uploads\<close>

definition ALLOWED_EXT :: "string set" where
  "ALLOWED_EXT = {''png'', ''jpg'', ''jpeg'', ''gif''}"

definition allowed_file :: "string \<Rightarrow> bool" where
  "allowed_file filename =
     (CHR ''.'' \<in> set filename \<and> lower (rsplit1 CHR ''.'' filename ! 1) \<in> ALLOWED_EXT)"

section \<open>Handlers\<close>

text \<open>
  Each handler is the \<^verbatim>\<open>POST\<close> branch of the route of the same name. The functions of
  \<^verbatim>\<open>werkzeug\<close> that a handler calls (\<^verbatim>\<open>generate_password_hash\<close>, \<^verbatim>\<open>check_password_hash\<close>,
  \<^verbatim>\<open>secure_filename\<close>) are its first argument; a missing form field is the empty string,
  as \<^verbatim>\<open>request.form.get(name, "")\<close> gives. The \<^verbatim>\<open>GET\<close> branch of \<^verbatim>\<open>register\<close>, \<^verbatim>\<open>login\<close>
  and \<^verbatim>\<open>new_project\<close> renders the form and changes nothing. \<^verbatim>\<open>login_user(user)\<close> binds the
  session to the user; \<^verbatim>\<open>remember=True\<close> only lengthens the life of the cookie, which is
  not modelled. \<^verbatim>\<open>.first()\<close> on a query with no ordering is the first matching row of the
  table.
\<close>

definition register ::
  "(string \<Rightarrow> string) \<Rightarrow> string \<Rightarrow> string \<Rightarrow> string \<Rightarrow> string option \<Rightarrow> nat option \<Rightarrow> db \<Rightarrow> outcome"
where
  "register generate_password_hash username_field email_field password display_name_field
      current_user d =
     (if current_user \<noteq> None then (Inr Index, current_user, d)
      else
        let uname = strip username_field;
            mail = lower (strip email_field);
            dname = (case display_name_field of None \<Rightarrow> uname | Some n \<Rightarrow> n)
        in if uname = [] \<or> mail = [] \<or> password = [] then (Inl InvalidInput, current_user, d)
           else if find (\<lambda>u. username u = uname \<or> email u = mail) (users d) \<noteq> None
           then (Inl DuplicateIdentity, current_user, d)
           else
             let u = \<lparr>user_id = next_id (map user_id (users d)), username = uname,
                      display_name = dname, email = mail,
                      password_hash = generate_password_hash password, bio = None\<rparr>
             in (Inr Index, Some (user_id u), d\<lparr>users := users d @ [u]\<rparr>))"

definition login ::
  "(string \<Rightarrow> string \<Rightarrow> bool) \<Rightarrow> string \<Rightarrow> string \<Rightarrow> nat option \<Rightarrow> db \<Rightarrow> outcome"
where
  "login check_password_hash username_field password current_user d =
     (if current_user \<noteq> None then (Inr Index, current_user, d)
      else
        let uname = strip username_field
        in case find (\<lambda>u. username u = uname \<or> email u = uname) (users d) of
             None \<Rightarrow> (Inl InvalidCredentials, current_user, d)
           | Some u \<Rightarrow>
               if check_password_hash (password_hash u) password
               then (Inr Dashboard, Some (user_id u), d)
               else (Inl InvalidCredentials, current_user, d))"

definition logout :: "nat option \<Rightarrow> db \<Rightarrow> outcome" where
  "logout current_user d =
     (case current_user of
        None \<Rightarrow> (Inl LoginRequired, current_user, d)
      | Some uid \<Rightarrow> (Inr Index, None, d))"

text \<open>
  \<open>file\<close> is the name of the uploaded file, \<open>None\<close> when the request has no
  \<^verbatim>\<open>image\<close> part; \<open>timestamp\<close> is the value of \<^verbatim>\<open>int(datetime.utcnow().timestamp())\<close>.
\<close>

definition new_project ::
  "(string \<Rightarrow> string) \<Rightarrow> string \<Rightarrow> string \<Rightarrow> string \<Rightarrow> string option \<Rightarrow> int \<Rightarrow> nat option \<Rightarrow> db
     \<Rightarrow> outcome"
where
  "new_project secure_filename title_field description_field budget_field file timestamp
      current_user d =
     (case current_user of
        None \<Rightarrow> (Inl LoginRequired, current_user, d)
      | Some uid \<Rightarrow>
          let t = strip title_field;
              descr = strip description_field;
              b = strip budget_field
          in if t = [] \<or> descr = [] then (Inl InvalidInput, current_user, d)
             else
               let filename =
                     (case file of
                        None \<Rightarrow> None
                      | Some fname \<Rightarrow>
                          if fname \<noteq> [] \<and> allowed_file fname
                          then Some (secure_filename (str_int timestamp @ ''_'' @ fname))
                          else None);
                   d1 = (case filename of
                           None \<Rightarrow> d
                         | Some f \<Rightarrow> d\<lparr>uploads := f # uploads d\<rparr>);
                   p = \<lparr>proj_id = next_id (map proj_id (projects d1)), title = t,
                        description = descr, budget = b, owner_id = uid,
                        image_file = filename\<rparr>
               in (Inr (ProjectDetail (proj_id p)), current_user,
                   d1\<lparr>projects := projects d1 @ [p]\<rparr>))"

definition place_bid :: "nat \<Rightarrow> string \<Rightarrow> string \<Rightarrow> nat option \<Rightarrow> db \<Rightarrow> outcome" where
  "place_bid pid price_field message_field current_user d =
     (case current_user of
        None \<Rightarrow> (Inl LoginRequired, current_user, d)
      | Some uid \<Rightarrow>
          (case find (\<lambda>p. proj_id p = pid) (projects d) of
             None \<Rightarrow> (Inl NotFound, current_user, d)
           | Some p \<Rightarrow>
               let pr = strip price_field;
                   msg = strip message_field
               in if pr = [] then (Inl InvalidInput, current_user, d)
                  else
                    let b = \<lparr>bid_id = next_id (map bid_id (bids d)), price = pr, message = msg,
                             project_id = proj_id p, bidder_id = uid, accepted = False\<rparr>
                    in (Inr (ProjectDetail pid), current_user, d\<lparr>bids := bids d @ [b]\<rparr>)))"

text \<open>
  \<^verbatim>\<open>accept_bid\<close>: the loop over \<^verbatim>\<open>project.bids\<close> clears the flag of every bid of the
  project, then the flag of the bid fetched by id within the project is set.
\<close>

definition clear_accepted :: "nat \<Rightarrow> bid list \<Rightarrow> bid list" where
  "clear_accepted pid bs = map (\<lambda>b. if project_id b = pid then b\<lparr>accepted := False\<rparr> else b) bs"

definition set_accepted :: "nat \<Rightarrow> nat \<Rightarrow> bid list \<Rightarrow> bid list" where
  "set_accepted pid bidid bs =
     map (\<lambda>b. if bid_id b = bidid \<and> project_id b = pid then b\<lparr>accepted := True\<rparr> else b) bs"

definition accept_bid :: "nat \<Rightarrow> nat \<Rightarrow> nat option \<Rightarrow> db \<Rightarrow> outcome" where
  "accept_bid pid bidid current_user d =
     (case current_user of
        None \<Rightarrow> (Inl LoginRequired, current_user, d)
      | Some uid \<Rightarrow>
          (case find (\<lambda>p. proj_id p = pid) (projects d) of
             None \<Rightarrow> (Inl NotFound, current_user, d)
           | Some p \<Rightarrow>
               if owner_id p \<noteq> uid then (Inl Forbidden, current_user, d)
               else
                 (case find (\<lambda>b. bid_id b = bidid \<and> project_id b = proj_id p) (bids d) of
                    None \<Rightarrow> (Inl NotFound, current_user, d)
                  | Some b \<Rightarrow>
                      (Inr (ProjectDetail pid), current_user,
                       d\<lparr>bids := set_accepted (proj_id p) (bid_id b)
                                  (clear_accepted (proj_id p) (bids d))\<rparr>))))"

section \<open>Requests\<close>

datatype request =
  Register string string string "string option"
| Login string string
| Logout
| NewProject string string string "string option" int
| PlaceBid nat string string
| AcceptBid nat nat

text \<open>The three \<^verbatim>\<open>werkzeug\<close> functions the handlers call.\<close>

record werkzeug =
  generate_hash :: "string \<Rightarrow> string"
  check_hash :: "string \<Rightarrow> string \<Rightarrow> bool"
  sanitize :: "string \<Rightarrow> string"

fun handle :: "werkzeug \<Rightarrow> request \<Rightarrow> nat option \<Rightarrow> db \<Rightarrow> outcome" where
  "handle w (Register un em pw dn) cu d = register (generate_hash w) un em pw dn cu d"
| "handle w (Login un pw) cu d = login (check_hash w) un pw cu d"
| "handle w Logout cu d = logout cu d"
| "handle w (NewProject t ds b f ts) cu d = new_project (sanitize w) t ds b f ts cu d"
| "handle w (PlaceBid pid pr msg) cu d = place_bid pid pr msg cu d"
| "handle w (AcceptBid pid bidid) cu d = accept_bid pid bidid cu d"

text \<open>
  The databases that requests can produce from the empty one. Every request may come from
  any client, so the identity of its session is arbitrary.
\<close>

inductive reachable :: "werkzeug \<Rightarrow> db \<Rightarrow> bool" for w :: werkzeug where
  reachable_empty: "reachable w empty_db"
| reachable_handle: "reachable w d \<Longrightarrow> handle w r cu d = (a, cu', d') \<Longrightarrow> reachable w d'"

text \<open>One client sending a list of requests in order, its session carried along.\<close>

fun run :: "werkzeug \<Rightarrow> request list \<Rightarrow> nat option \<times> db \<Rightarrow> nat option \<times> db" where
  "run w [] s = s"
| "run w (r # rs) (cu, d) = run w rs (snd (handle w r cu d))"

section \<open>The sanitizer of werkzeug\<close>

text \<open>
  \<^verbatim>\<open>werkzeug.utils.secure_filename\<close>, which \<^verbatim>\<open>new_project\<close> calls, as it runs on a POSIX
  host (\<^verbatim>\<open>os.sep\<close> is the slash and there is no \<^verbatim>\<open>os.path.altsep\<close>):
  \<^verbatim>\<open>
  filename = unicodedata.normalize("NFKD", filename)
  filename = filename.encode("ascii", "ignore").decode("ascii")
  for sep in os.sep, os.path.altsep:
      if sep:
          filename = filename.replace(sep, " ")
  filename = str(_filename_ascii_strip_re.sub("", "_".join(filename.split()))).strip("._")
  \<close>
  where \<^verbatim>\<open>_filename_ascii_strip_re\<close> matches every character outside \<^verbatim>\<open>A-Za-z0-9_.-\<close>.
  The model is exact on ASCII names, which the normalisation leaves as they are. A code
  point from 128 on is dropped here; the library may first decompose it into ASCII
  characters that stay.
\<close>

definition is_ascii :: "char \<Rightarrow> bool" where
  "is_ascii c = ((of_char c :: nat) < 128)"

text \<open>\<^verbatim>\<open>str.split()\<close>: the maximal runs of characters that are not white space.\<close>

fun split_from :: "string \<Rightarrow> string \<Rightarrow> string list" where
  "split_from word [] = (if word = [] then [] else [word])"
| "split_from word (c # cs) =
     (if isspace c then (if word = [] then split_from [] cs else word # split_from [] cs)
      else split_from (word @ [c]) cs)"

definition split_whitespace :: "string \<Rightarrow> string list" where
  "split_whitespace s = split_from [] s"

fun join :: "string \<Rightarrow> string list \<Rightarrow> string" where
  "join sep [] = []"
| "join sep [w] = w"
| "join sep (w # ws) = w @ sep @ join sep ws"

definition strip_chars :: "string \<Rightarrow> string \<Rightarrow> string" where
  "strip_chars cs s = rev (dropWhile (\<lambda>c. c \<in> set cs) (rev (dropWhile (\<lambda>c. c \<in> set cs) s)))"

definition filename_char :: "char \<Rightarrow> bool" where
  "filename_char c =
     (let n = (of_char c :: nat)
      in (65 \<le> n \<and> n \<le> 90) \<or> (97 \<le> n \<and> n \<le> 122) \<or> (48 \<le> n \<and> n \<le> 57)
         \<or> c = CHR ''_'' \<or> c = CHR ''.'' \<or> c = CHR ''-'')"

definition secure_filename :: "string \<Rightarrow> string" where
  "secure_filename filename =
     (let ascii = filter is_ascii filename;
          spaced = map (\<lambda>c. if c = CHR ''/'' then CHR '' '' else c) ascii;
          joined = join ''_'' (split_whitespace spaced)
      in strip_chars ''._'' (filter filename_char joined))"

section \<open>A worked scenario\<close>

text \<open>
  The scenario of the specification: alice registers and posts a project, bob and carol
  register and bid on it, alice accepts the bid of bob. The password hashing of the
  scenario prefixes the password with a tag; its sanitizer is \<^const>\<open>secure_filename\<close>.
\<close>

definition demo_lib :: werkzeug where
  "demo_lib =
     \<lparr>generate_hash = (\<lambda>p. ''hash:'' @ p), check_hash = (\<lambda>h p. h = ''hash:'' @ p),
      sanitize = secure_filename\<rparr>"

definition demo_requests :: "request list" where
  "demo_requests =
     [Register ''alice'' ''alice@x.com'' ''pw1'' None,
      NewProject ''Logo design'' ''A logo for the shop'' ''$100'' None 1700000000,
      Logout,
      Register ''bob'' ''bob@x.com'' ''pw2'' None,
      PlaceBid 1 ''$80'' [],
      Logout,
      Register ''carol'' ''carol@x.com'' ''pw3'' None,
      PlaceBid 1 ''$70'' ''two days'',
      Logout,
      Login ''alice'' ''pw1'',
      AcceptBid 1 1]"

definition demo_db :: db where
  "demo_db = snd (run demo_lib demo_requests (None, empty_db))"

definition alice :: user where
  "alice =
     \<lparr>user_id = 1, username = ''alice'', display_name = ''alice'', email = ''alice@x.com'',
      password_hash = ''hash:pw1'', bio = None\<rparr>"

definition bob :: user where
  "bob =
     \<lparr>user_id = 2, username = ''bob'', display_name = ''bob'', email = ''bob@x.com'',
      password_hash = ''hash:pw2'', bio = None\<rparr>"

definition carol :: user where
  "carol =
     \<lparr>user_id = 3, username = ''carol'', display_name = ''carol'', email = ''carol@x.com'',
      password_hash = ''hash:pw3'', bio = None\<rparr>"

definition logo_project :: project where
  "logo_project =
     \<lparr>proj_id = 1, title = ''Logo design'', description = ''A logo for the shop'',
      budget = ''$100'', owner_id = 1, image_file = None\<rparr>"

definition bob_bid :: bid where
  "bob_bid =
     \<lparr>bid_id = 1, price = ''$80'', message = [], project_id = 1, bidder_id = 2,
      accepted = True\<rparr>"

definition carol_bid :: bid where
  "carol_bid =
     \<lparr>bid_id = 2, price = ''$70'', message = ''two days'', project_id = 1, bidder_id = 3,
      accepted = False\<rparr>"





section \<open>Evaluation\<close>

lemmas py_eval =
  strip_def isspace_def lower_def lower_char_def char_of_def bit_Suc_0_iff str_int_def
  digits.simps digit_char_def rsplit1_def allowed_file_def ALLOWED_EXT_def next_id_def Let_def

lemmas sf_eval =
  secure_filename_def is_ascii_def split_whitespace_def strip_chars_def filename_char_def

lemmas handler_defs =
  register_def login_def logout_def new_project_def place_bid_def accept_bid_def
  clear_accepted_def set_accepted_def empty_db_def

lemmas demo_defs =
  demo_lib_def alice_def bob_def carol_def logo_project_def bob_bid_def carol_bid_def


lemma demo_db_eq:
  "demo_db =
     \<lparr>users = [alice, bob, carol], projects = [logo_project], bids = [bob_bid, carol_bid],
      uploads = []\<rparr>"
  by (simp add: demo_db_def demo_requests_def demo_defs handler_defs py_eval)

section \<open>Accepting a bid\<close>

text \<open>
  Claim C2. When the acting user owns the project and the target bid belongs to that
  project, \<^const>\<open>accept_bid\<close> succeeds, and afterwards each bid of the project is accepted
  exactly when it is the target: the target bid is accepted and every other bid of the
  project is not, whatever its flag was before. Bids of other projects and every other
  table are as before.
\<close>

theorem accept_bid_marks_only_target:
  assumes "find (\<lambda>p. proj_id p = pid) (projects d) = Some p" and "owner_id p = uid"
    and "b \<in> set (bids d)" and "bid_id b = bidid" and "project_id b = pid"
  shows "\<exists>bs'. accept_bid pid bidid (Some uid) d =
             (Inr (ProjectDetail pid), Some uid, d\<lparr>bids := bs'\<rparr>) \<and>
     bs' = map (\<lambda>x. if project_id x = pid then x\<lparr>accepted := (bid_id x = bidid)\<rparr> else x)
             (bids d) \<and>
     b\<lparr>accepted := True\<rparr> \<in> set bs' \<and>
     (\<forall>x \<in> set bs'. project_id x = pid \<and> bid_id x \<noteq> bidid \<longrightarrow> \<not> accepted x)"
proof -
  from assms(1) have pp: "proj_id p = pid" by (auto simp: find_Some_iff)
  from assms(3-5) have "find (\<lambda>x. bid_id x = bidid \<and> project_id x = pid) (bids d) \<noteq> None"
    by (auto simp: find_None_iff)
  then obtain t where t: "find (\<lambda>x. bid_id x = bidid \<and> project_id x = pid) (bids d) = Some t"
    by auto
  then have tt: "bid_id t = bidid" by (auto simp: find_Some_iff)
  define f where
    "f = (\<lambda>x::bid. if project_id x = pid then x\<lparr>accepted := (bid_id x = bidid)\<rparr> else x)"
  have fuse: "set_accepted pid bidid (clear_accepted pid (bids d)) = map f (bids d)"
    by (simp add: set_accepted_def clear_accepted_def f_def)
  have res: "accept_bid pid bidid (Some uid) d =
      (Inr (ProjectDetail pid), Some uid, d\<lparr>bids := map f (bids d)\<rparr>)"
    using assms(1,2) pp t tt fuse by (simp add: accept_bid_def)
  have "f b \<in> f ` set (bids d)" using assms(3) by (rule imageI)
  moreover have "f b = b\<lparr>accepted := True\<rparr>" using assms(4,5) by (simp add: f_def)
  ultimately have mem: "b\<lparr>accepted := True\<rparr> \<in> set (map f (bids d))" by simp
  have others:
    "\<forall>x \<in> set (map f (bids d)). project_id x = pid \<and> bid_id x \<noteq> bidid \<longrightarrow> \<not> accepted x"
  proof
    fix x assume "x \<in> set (map f (bids d))"
    then obtain y where "x = f y" by auto
    then show "project_id x = pid \<and> bid_id x \<noteq> bidid \<longrightarrow> \<not> accepted x"
      by (simp add: f_def)
  qed
  show ?thesis
    using res mem others unfolding f_def by (intro exI conjI) (assumption | rule refl)+
qed

text \<open>
  In the scenario the bid of bob is the accepted one. When alice then accepts the bid of
  carol, that bid becomes accepted and the bid of bob flips back.
\<close>

theorem accept_bid_marks_only_target_witness:
  "find (\<lambda>p. proj_id p = 1) (projects demo_db) = Some logo_project \<and>
   owner_id logo_project = 1 \<and> carol_bid \<in> set (bids demo_db) \<and> bid_id carol_bid = 2 \<and>
   project_id carol_bid = 1 \<and> accepted bob_bid \<and>
   accept_bid 1 2 (Some 1) demo_db =
     (Inr (ProjectDetail 1), Some 1,
      demo_db\<lparr>bids := [bob_bid\<lparr>accepted := False\<rparr>, carol_bid\<lparr>accepted := True\<rparr>]\<rparr>)"
proof -
  have h1: "find (\<lambda>p. proj_id p = 1) (projects demo_db) = Some logo_project"
    by (simp add: demo_db_eq logo_project_def)
  have h2: "owner_id logo_project = 1" by (simp add: logo_project_def)
  have h3: "carol_bid \<in> set (bids demo_db)" by (simp add: demo_db_eq)
  have h4: "bid_id carol_bid = 2" by (simp add: carol_bid_def)
  have h5: "project_id carol_bid = 1" by (simp add: carol_bid_def)
  have h6: "accepted bob_bid" by (simp add: bob_bid_def)
  from accept_bid_marks_only_target [OF h1 h2 h3 h4 h5]
  obtain bs' where r: "accept_bid 1 2 (Some 1) demo_db =
        (Inr (ProjectDetail 1), Some 1, demo_db\<lparr>bids := bs'\<rparr>)"
    and bs: "bs' = map (\<lambda>x. if project_id x = 1 then x\<lparr>accepted := (bid_id x = 2)\<rparr> else x)
                    (bids demo_db)"
    by (elim exE conjE)
  from bs have "bs' = [bob_bid\<lparr>accepted := False\<rparr>, carol_bid\<lparr>accepted := True\<rparr>]"
    by (simp add: demo_db_eq bob_bid_def carol_bid_def)
  with r have "accept_bid 1 2 (Some 1) demo_db =
     (Inr (ProjectDetail 1), Some 1,
      demo_db\<lparr>bids := [bob_bid\<lparr>accepted := False\<rparr>, carol_bid\<lparr>accepted := True\<rparr>]\<rparr>)"
    by simp
  with h1 h2 h3 h4 h5 h6 show ?thesis by (intro conjI)
qed

text \<open>
  Claim C3. When an authenticated user who does not own the project asks to accept a bid
  on it, \<^const>\<open>accept_bid\<close> answers \<open>Forbidden\<close> and returns the database as it was: no
  bid, and no other row, is changed.
\<close>

theorem accept_bid_non_owner_forbidden:
  "find (\<lambda>p. proj_id p = pid) (projects d) = Some p \<Longrightarrow> owner_id p \<noteq> uid
   \<Longrightarrow> accept_bid pid bidid (Some uid) d = (Inl Forbidden, Some uid, d)"
  by (simp add: accept_bid_def)

theorem accept_bid_non_owner_forbidden_witness:
  "find (\<lambda>p. proj_id p = 1) (projects demo_db) = Some logo_project \<and> owner_id logo_project \<noteq> 2 \<and>
   accept_bid 1 2 (Some 2) demo_db = (Inl Forbidden, Some 2, demo_db)"
proof -
  have h1: "find (\<lambda>p. proj_id p = 1) (projects demo_db) = Some logo_project"
    by (simp add: demo_db_eq logo_project_def)
  have h2: "owner_id logo_project \<noteq> 2" by (simp add: logo_project_def)
  from h1 h2 accept_bid_non_owner_forbidden [OF h1 h2, of 2] show ?thesis by (intro conjI)
qed

text \<open>
  Claim C4. When the owner of the project names a bid id that no bid of that project has
  (no bid has the id, or the bid with the id references another project),
  \<^const>\<open>accept_bid\<close> answers \<open>NotFound\<close> and returns the database as it was: the flags are
  neither cleared nor set.
\<close>

theorem accept_bid_unknown_bid_not_found:
  assumes "find (\<lambda>p. proj_id p = pid) (projects d) = Some p" and "owner_id p = uid"
    and "\<not> (\<exists>b \<in> set (bids d). bid_id b = bidid \<and> project_id b = pid)"
  shows "accept_bid pid bidid (Some uid) d = (Inl NotFound, Some uid, d)"
proof -
  from assms(1) have pp: "proj_id p = pid" by (auto simp: find_Some_iff)
  from assms(3) have "find (\<lambda>b. bid_id b = bidid \<and> project_id b = pid) (bids d) = None"
    by (auto simp: find_None_iff)
  with assms(1,2) pp show ?thesis by (simp add: accept_bid_def)
qed

theorem accept_bid_unknown_bid_not_found_witness:
  "find (\<lambda>p. proj_id p = 1) (projects demo_db) = Some logo_project \<and> owner_id logo_project = 1 \<and>
   \<not> (\<exists>b \<in> set (bids demo_db). bid_id b = 7 \<and> project_id b = 1) \<and>
   accept_bid 1 7 (Some 1) demo_db = (Inl NotFound, Some 1, demo_db)"
proof -
  have h1: "find (\<lambda>p. proj_id p = 1) (projects demo_db) = Some logo_project"
    by (simp add: demo_db_eq logo_project_def)
  have h2: "owner_id logo_project = 1" by (simp add: logo_project_def)
  have h3: "\<not> (\<exists>b \<in> set (bids demo_db). bid_id b = 7 \<and> project_id b = 1)"
    by (simp add: demo_db_eq bob_bid_def carol_bid_def)
  from h1 h2 h3 accept_bid_unknown_bid_not_found [OF h1 h2 h3] show ?thesis by (intro conjI)
qed

section \<open>What each request does to the bids\<close>

lemma le_foldr_max: "x \<in> set ids \<Longrightarrow> x \<le> foldr max ids (0::nat)"
  by (induction ids) (auto simp: max_def)

lemma next_id_fresh: "next_id ids \<notin> set ids"
proof
  assume "next_id ids \<in> set ids"
  then have "next_id ids \<le> foldr max ids 0" by (rule le_foldr_max)
  then show False by (simp add: next_id_def)
qed

lemma register_bids: "register g un em pw dn cu d = (a, cu', d') \<Longrightarrow> bids d' = bids d"
  by (auto simp: register_def Let_def split: if_splits)

lemma login_bids: "login c un pw cu d = (a, cu', d') \<Longrightarrow> bids d' = bids d"
  by (auto simp: login_def Let_def split: if_splits option.splits)

lemma logout_bids: "logout cu d = (a, cu', d') \<Longrightarrow> bids d' = bids d"
  by (auto simp: logout_def split: option.splits)

lemma new_project_bids: "new_project sf t ds b f ts cu d = (a, cu', d') \<Longrightarrow> bids d' = bids d"
  by (auto simp: new_project_def Let_def split: if_splits option.splits)

lemma place_bid_bids:
  "place_bid pid pr msg cu d = (a, cu', d') \<Longrightarrow>
   bids d' = bids d \<or>
   (\<exists>b. bids d' = bids d @ [b] \<and> \<not> accepted b \<and> bid_id b = next_id (map bid_id (bids d)))"
  by (auto simp: place_bid_def Let_def split: if_splits option.splits)

lemma accept_fused:
  "set_accepted pid bidid (clear_accepted pid bs) =
   map (\<lambda>x::bid. if project_id x = pid then x\<lparr>accepted := (bid_id x = bidid)\<rparr> else x) bs"
  by (simp add: set_accepted_def clear_accepted_def)

lemma accept_bid_bids:
  "accept_bid pid bidid cu d = (a, cu', d') \<Longrightarrow>
   bids d' = bids d \<or>
   bids d' = map (\<lambda>x::bid. if project_id x = pid then x\<lparr>accepted := (bid_id x = bidid)\<rparr> else x)
               (bids d)"
proof -
  assume r: "accept_bid pid bidid cu d = (a, cu', d')"
  show ?thesis
  proof (cases "a")
    case (Inl e)
    with r have "d' = d"
      by (auto simp: accept_bid_def split: if_splits option.splits)
    then show ?thesis by simp
  next
    case (Inr pg)
    with r obtain p t where p: "find (\<lambda>p. proj_id p = pid) (projects d) = Some p"
      and t: "find (\<lambda>b. bid_id b = bidid \<and> project_id b = proj_id p) (bids d) = Some t"
      and d': "d' = d\<lparr>bids := set_accepted (proj_id p) (bid_id t) (clear_accepted (proj_id p) (bids d))\<rparr>"
      by (auto simp: accept_bid_def split: if_splits option.splits)
    from p have "proj_id p = pid" by (auto simp: find_Some_iff)
    moreover from t have "bid_id t = bidid" by (auto simp: find_Some_iff)
    ultimately show ?thesis using d' by (simp add: accept_fused)
  qed
qed

section \<open>One accepted bid per project\<close>

lemma at_most_one_with_id:
  "distinct (map bid_id bs) \<Longrightarrow> length (filter (\<lambda>x::bid. bid_id x = k \<and> Q x) bs) \<le> 1"
proof (induction bs)
  case Nil
  then show ?case by simp
next
  case (Cons b bs)
  show ?case
  proof (cases "bid_id b = k")
    case True
    with Cons.prems have "\<forall>x \<in> set bs. bid_id x \<noteq> k" by (auto simp: image_iff)
    then have "filter (\<lambda>x. bid_id x = k \<and> Q x) bs = []" by (auto simp: filter_empty_conv)
    then show ?thesis by simp
  next
    case False
    with Cons show ?thesis by simp
  qed
qed

lemma accepted_after_accept:
  assumes "distinct (map bid_id bs)"
    and "length (filter (\<lambda>b. project_id b = P \<and> accepted b) bs) \<le> 1"
  shows "length (filter (\<lambda>b. project_id b = P \<and> accepted b)
           (map (\<lambda>x::bid. if project_id x = pid then x\<lparr>accepted := (bid_id x = bidid)\<rparr> else x) bs))
         \<le> 1"
proof (cases "P = pid")
  case True
  have "filter ((\<lambda>b. project_id b = P \<and> accepted b) \<circ>
          (\<lambda>x::bid. if project_id x = pid then x\<lparr>accepted := (bid_id x = bidid)\<rparr> else x)) bs =
        filter (\<lambda>x. bid_id x = bidid \<and> project_id x = pid) bs"
    using True by (intro filter_cong) auto
  then show ?thesis
    using at_most_one_with_id [OF assms(1), of bidid "\<lambda>x. project_id x = pid"]
    by (simp add: filter_map)
next
  case False
  have "filter ((\<lambda>b. project_id b = P \<and> accepted b) \<circ>
          (\<lambda>x::bid. if project_id x = pid then x\<lparr>accepted := (bid_id x = bidid)\<rparr> else x)) bs =
        filter (\<lambda>b. project_id b = P \<and> accepted b) bs"
    using False by (intro filter_cong) auto
  then show ?thesis using assms(2) by (simp add: filter_map)
qed

lemma ids_after_accept:
  "map bid_id (map (\<lambda>x::bid. if project_id x = pid then x\<lparr>accepted := (bid_id x = bidid)\<rparr> else x) bs)
   = map bid_id bs"
  by (induction bs) auto

lemma handle_bids:
  assumes "handle w r cu d = (a, cu', d')"
  shows "bids d' = bids d \<or>
     (\<exists>b. bids d' = bids d @ [b] \<and> \<not> accepted b \<and> bid_id b = next_id (map bid_id (bids d))) \<or>
     (\<exists>pid bidid. r = AcceptBid pid bidid \<and>
        bids d' = map (\<lambda>x::bid. if project_id x = pid then x\<lparr>accepted := (bid_id x = bidid)\<rparr> else x)
                    (bids d))"
proof (cases r)
  case (Register un em pw dn)
  with assms show ?thesis by (simp add: register_bids)
next
  case (Login un pw)
  with assms show ?thesis by (simp add: login_bids)
next
  case Logout
  with assms show ?thesis by (simp add: logout_bids)
next
  case (NewProject t ds b f ts)
  with assms show ?thesis by (simp add: new_project_bids)
next
  case (PlaceBid pid pr msg)
  with assms have "place_bid pid pr msg cu d = (a, cu', d')" by simp
  from place_bid_bids [OF this] show ?thesis by blast
next
  case (AcceptBid pid bidid)
  with assms have "accept_bid pid bidid cu d = (a, cu', d')" by simp
  from accept_bid_bids [OF this] AcceptBid show ?thesis by blast
qed

lemma reachable_bids_invariant:
  "reachable w d \<Longrightarrow>
   distinct (map bid_id (bids d)) \<and>
   (\<forall>P. length (filter (\<lambda>b. project_id b = P \<and> accepted b) (bids d)) \<le> 1)"
proof (induction rule: reachable.induct)
  case reachable_empty
  show ?case by (simp add: empty_db_def)
next
  case (reachable_handle d r cu a cu' d')
  from handle_bids [OF reachable_handle.hyps(2)]
  consider (same) "bids d' = bids d"
    | (placed) b where "bids d' = bids d @ [b]" "\<not> accepted b"
        "bid_id b = next_id (map bid_id (bids d))"
    | (accepted) pid bidid where
        "bids d' = map (\<lambda>x::bid. if project_id x = pid then x\<lparr>accepted := (bid_id x = bidid)\<rparr> else x)
                     (bids d)"
    by blast
  then show ?case
  proof cases
    case same
    with reachable_handle.IH show ?thesis by simp
  next
    case placed
    with reachable_handle.IH next_id_fresh [of "map bid_id (bids d)"] show ?thesis by simp
  next
    case accepted
    with reachable_handle.IH show ?thesis
      by (simp only: ids_after_accept accepted_after_accept simp_thms)
  qed
qed

lemma reachable_run: "reachable w d \<Longrightarrow> reachable w (snd (run w rs (cu, d)))"
proof (induction rs arbitrary: cu d)
  case Nil
  then show ?case by simp
next
  case (Cons r rs)
  obtain a cu' d' where h: "handle w r cu d = (a, cu', d')" by (cases "handle w r cu d") auto
  with Cons.prems have "reachable w d'" by (rule reachable_handle)
  then have "reachable w (snd (run w rs (cu', d')))" by (rule Cons.IH)
  with h show ?case by simp
qed

text \<open>
  Claim C1. In every database that a sequence of requests (register, login, logout,
  create project, place bid, accept bid, each sent by any client) produces from the empty
  one, at most one bid of any project \<open>P\<close> is accepted.
\<close>

theorem one_accepted_bid_per_project:
  "reachable w d \<Longrightarrow> length (filter (\<lambda>b. project_id b = P \<and> accepted b) (bids d)) \<le> 1"
  using reachable_bids_invariant by blast

theorem one_accepted_bid_per_project_witness:
  "reachable demo_lib demo_db \<and>
   filter (\<lambda>b. project_id b = 1 \<and> accepted b) (bids demo_db) = [bob_bid] \<and>
   length (filter (\<lambda>b. project_id b = 1 \<and> accepted b) (bids demo_db)) \<le> 1"
proof -
  have r: "reachable demo_lib demo_db"
    unfolding demo_db_def by (rule reachable_run [OF reachable_empty])
  have "filter (\<lambda>b. project_id b = 1 \<and> accepted b) (bids demo_db) = [bob_bid]"
    by (simp add: demo_db_eq bob_bid_def carol_bid_def)
  with r one_accepted_bid_per_project [OF r, of 1] show ?thesis by (intro conjI)
qed

section \<open>Placing a bid\<close>

text \<open>
  Claim C10. A successful \<^const>\<open>place_bid\<close> appends one bid, which is not accepted, and
  leaves every bid that was there as it was. More generally a request that is not an
  accept-bid request accepts nothing: every bid that is accepted after it is a bid that
  was there, accepted, before it.
\<close>

theorem new_bid_not_accepted:
  "(place_bid pid price_field message_field cu d = (Inr pg, cu', d') \<longrightarrow>
      (\<exists>b. bids d' = bids d @ [b] \<and> \<not> accepted b)) \<and>
   (handle w r cu2 d2 = (a, cu2', d2') \<and> (\<forall>p i. r \<noteq> AcceptBid p i) \<longrightarrow>
      (\<forall>b \<in> set (bids d2'). accepted b \<longrightarrow> b \<in> set (bids d2)))"
proof (intro conjI impI)
  assume "place_bid pid price_field message_field cu d = (Inr pg, cu', d')"
  then show "\<exists>b. bids d' = bids d @ [b] \<and> \<not> accepted b"
    by (auto simp: place_bid_def Let_def split: if_splits option.splits)
next
  assume h: "handle w r cu2 d2 = (a, cu2', d2') \<and> (\<forall>p i. r \<noteq> AcceptBid p i)"
  from handle_bids [of w r cu2 d2 a cu2' d2'] h
  have "bids d2' = bids d2 \<or> (\<exists>b. bids d2' = bids d2 @ [b] \<and> \<not> accepted b)"
    by blast
  then show "\<forall>b \<in> set (bids d2'). accepted b \<longrightarrow> b \<in> set (bids d2)"
    by auto
qed

theorem new_bid_not_accepted_witness:
  "place_bid 1 ''$60'' ''in a week'' (Some 2) demo_db =
     (Inr (ProjectDetail 1), Some 2,
      demo_db\<lparr>bids := bids demo_db @
        [\<lparr>bid_id = 3, price = ''$60'', message = ''in a week'', project_id = 1, bidder_id = 2,
          accepted = False\<rparr>]\<rparr>) \<and>
   handle demo_lib (PlaceBid 1 ''$60'' ''in a week'') (Some 2) demo_db =
     (Inr (ProjectDetail 1), Some 2,
      demo_db\<lparr>bids := bids demo_db @
        [\<lparr>bid_id = 3, price = ''$60'', message = ''in a week'', project_id = 1, bidder_id = 2,
          accepted = False\<rparr>]\<rparr>) \<and>
   (\<exists>b. bids demo_db @
        [\<lparr>bid_id = 3, price = ''$60'', message = ''in a week'', project_id = 1, bidder_id = 2,
          accepted = False\<rparr>] = bids demo_db @ [b] \<and> \<not> accepted b) \<and>
   filter accepted (bids demo_db @
        [\<lparr>bid_id = 3, price = ''$60'', message = ''in a week'', project_id = 1, bidder_id = 2,
          accepted = False\<rparr>]) = [bob_bid]"
proof -
  define d' where "d' = demo_db\<lparr>bids := bids demo_db @
        [\<lparr>bid_id = 3, price = ''$60'', message = ''in a week'', project_id = 1, bidder_id = 2,
          accepted = False\<rparr>]\<rparr>"
  have p: "place_bid 1 ''$60'' ''in a week'' (Some 2) demo_db = (Inr (ProjectDetail 1), Some 2, d')"
    by (simp add: d'_def demo_db_eq demo_defs place_bid_def py_eval)
  then have h: "handle demo_lib (PlaceBid 1 ''$60'' ''in a week'') (Some 2) demo_db =
      (Inr (ProjectDetail 1), Some 2, d')"
    by simp
  have n: "\<forall>p i. PlaceBid 1 ''$60'' ''in a week'' \<noteq> AcceptBid p i" by simp
  from new_bid_not_accepted
    [of 1 "''$60''" "''in a week''" "Some 2" demo_db "ProjectDetail 1" "Some 2" d'
        demo_lib "PlaceBid 1 ''$60'' ''in a week''" "Some 2" demo_db "Inr (ProjectDetail 1)"
        "Some 2" d'] p h n
  have e: "\<exists>b. bids d' = bids demo_db @ [b] \<and> \<not> accepted b"
    by blast
  have f: "filter accepted (bids d') = [bob_bid]"
    by (simp add: d'_def demo_db_eq bob_bid_def carol_bid_def)
  have b: "bids d' = bids demo_db @
        [\<lparr>bid_id = 3, price = ''$60'', message = ''in a week'', project_id = 1, bidder_id = 2,
          accepted = False\<rparr>]"
    by (simp add: d'_def)
  from p h e f show ?thesis unfolding b unfolding d'_def by (intro conjI)
qed

text \<open>
  Claim C9, as stated, fails: the price is stripped of white space before it is tested, so
  a price of one blank, which is not the empty string, is rejected and no bid is inserted.
\<close>

theorem place_bid_blank_price_counterexample:
  "[CHR '' ''] \<noteq> [] \<and> logo_project \<in> set (projects demo_db) \<and> proj_id logo_project = 1 \<and>
   place_bid 1 [CHR '' ''] [] (Some 2) demo_db = (Inl InvalidInput, Some 2, demo_db)"
  by (simp add: demo_db_eq demo_defs place_bid_def py_eval)

text \<open>
  Claim C9, amended. For every \<^const>\<open>place_bid\<close> by an authenticated user on an existing
  project, with a price that is not empty once stripped of white space, a bid that
  references the project and has the acting user as bidder is inserted. Nothing is asked
  of the acting user or of the bids already there: the owner of the project may bid, and
  a user may bid again.
\<close>

theorem place_bid_inserts:
  assumes "find (\<lambda>p. proj_id p = pid) (projects d) = Some p" and "strip price_field \<noteq> []"
  shows "place_bid pid price_field message_field (Some uid) d =
     (Inr (ProjectDetail pid), Some uid,
      d\<lparr>bids := bids d @
        [\<lparr>bid_id = next_id (map bid_id (bids d)), price = strip price_field,
          message = strip message_field, project_id = pid, bidder_id = uid,
          accepted = False\<rparr>]\<rparr>)"
proof -
  from assms(1) have "proj_id p = pid" by (auto simp: find_Some_iff)
  with assms show ?thesis by (simp add: place_bid_def Let_def)
qed

text \<open>
  In the scenario alice owns the project and carol has a bid on it already; each of them
  can place a bid.
\<close>

theorem place_bid_inserts_witness:
  "find (\<lambda>p. proj_id p = 1) (projects demo_db) = Some logo_project \<and> strip ''$90'' \<noteq> [] \<and>
   owner_id logo_project = 1 \<and> carol_bid \<in> set (bids demo_db) \<and> bidder_id carol_bid = 3 \<and>
   place_bid 1 ''$90'' [] (Some 1) demo_db =
     (Inr (ProjectDetail 1), Some 1,
      demo_db\<lparr>bids := bids demo_db @
        [\<lparr>bid_id = 3, price = ''$90'', message = [], project_id = 1, bidder_id = 1,
          accepted = False\<rparr>]\<rparr>) \<and>
   place_bid 1 ''$90'' [] (Some 3) demo_db =
     (Inr (ProjectDetail 1), Some 3,
      demo_db\<lparr>bids := bids demo_db @
        [\<lparr>bid_id = 3, price = ''$90'', message = [], project_id = 1, bidder_id = 3,
          accepted = False\<rparr>]\<rparr>)"
proof -
  have h1: "find (\<lambda>p. proj_id p = 1) (projects demo_db) = Some logo_project"
    by (simp add: demo_db_eq logo_project_def)
  have h2: "strip ''$90'' \<noteq> []" by (simp add: py_eval)
  have s: "strip ''$90'' = ''$90''" "strip [] = []" by (simp_all add: py_eval)
  have n: "next_id (map bid_id (bids demo_db)) = 3"
    by (simp add: demo_db_eq bob_bid_def carol_bid_def next_id_def)
  have f: "owner_id logo_project = 1" "carol_bid \<in> set (bids demo_db)" "bidder_id carol_bid = 3"
    by (simp_all add: demo_db_eq logo_project_def carol_bid_def)
  from place_bid_inserts [OF h1 h2, of "[]" 1] place_bid_inserts [OF h1 h2, of "[]" 3] h1 h2 f
  show ?thesis by (simp only: s n simp_thms)
qed

section \<open>Registration\<close>





section \<open>Login\<close>





section \<open>Uploads\<close>

lemma rsplit1_parts:
  assumes "sep \<in> set s"
  shows "\<exists>stem ext. rsplit1 sep s = [stem, ext] \<and> s = stem @ sep # ext \<and> sep \<notin> set ext"
proof -
  let ?r = "rev s"
  let ?tw = "takeWhile (\<lambda>c. c \<noteq> sep) ?r"
  let ?dw = "dropWhile (\<lambda>c. c \<noteq> sep) ?r"
  from assms have "?dw \<noteq> []" by (simp add: dropWhile_eq_Nil_conv)
  then have hd: "hd ?dw = sep" using hd_dropWhile [of "\<lambda>c. c \<noteq> sep" ?r] by simp
  with \<open>?dw \<noteq> []\<close> have dw: "?dw = sep # tl ?dw" by (cases ?dw) auto
  have "?r = ?tw @ ?dw" by simp
  with dw have "?r = ?tw @ sep # tl ?dw" by simp
  then have "rev ?r = rev (?tw @ sep # tl ?dw)" by (rule arg_cong)
  then have s: "s = rev (tl ?dw) @ sep # rev ?tw" by simp
  have "sep \<notin> set (rev ?tw)" by (auto dest: set_takeWhileD)
  with s assms show ?thesis by (auto simp: rsplit1_def)
qed

lemma rsplit1_append:
  assumes "sep \<notin> set ext"
  shows "rsplit1 sep (stem @ sep # ext) = [stem, ext]"
proof -
  have r: "rev (stem @ sep # ext) = rev ext @ sep # rev stem" by simp
  from assms have ne: "\<forall>x \<in> set (rev ext). x \<noteq> sep" by auto
  from ne have tw: "takeWhile (\<lambda>c. c \<noteq> sep) (rev ext @ sep # rev stem) = rev ext"
    by (simp add: takeWhile_tail)
  from ne have dw: "dropWhile (\<lambda>c. c \<noteq> sep) (rev ext @ sep # rev stem) = sep # rev stem"
    by (simp add: dropWhile_append3)
  show ?thesis unfolding rsplit1_def r tw dw by simp
qed

lemma allowed_file_iff:
  "allowed_file fname \<longleftrightarrow>
   (\<exists>stem ext. fname = stem @ ''.'' @ ext \<and> CHR ''.'' \<notin> set ext \<and>
      lower ext \<in> {''png'', ''jpg'', ''jpeg'', ''gif''})"
proof
  assume a: "allowed_file fname"
  then have "CHR ''.'' \<in> set fname" by (simp add: allowed_file_def)
  from rsplit1_parts [OF this] obtain stem ext where
    p: "rsplit1 CHR ''.'' fname = [stem, ext]" "fname = stem @ CHR ''.'' # ext"
      "CHR ''.'' \<notin> set ext"
    by blast
  from a p(1) have "lower ext \<in> {''png'', ''jpg'', ''jpeg'', ''gif''}"
    by (simp add: allowed_file_def ALLOWED_EXT_def)
  with p(2,3) show "\<exists>stem ext. fname = stem @ ''.'' @ ext \<and> CHR ''.'' \<notin> set ext \<and>
      lower ext \<in> {''png'', ''jpg'', ''jpeg'', ''gif''}"
    by auto
next
  assume "\<exists>stem ext. fname = stem @ ''.'' @ ext \<and> CHR ''.'' \<notin> set ext \<and>
      lower ext \<in> {''png'', ''jpg'', ''jpeg'', ''gif''}"
  then obtain stem ext where p: "fname = stem @ CHR ''.'' # ext" "CHR ''.'' \<notin> set ext"
    "lower ext \<in> {''png'', ''jpg'', ''jpeg'', ''gif''}"
    by auto
  from p(2) have "rsplit1 CHR ''.'' (stem @ CHR ''.'' # ext) = [stem, ext]"
    by (rule rsplit1_append)
  with p show "allowed_file fname" by (simp add: allowed_file_def ALLOWED_EXT_def)
qed

lemma allowed_file_nonempty: "allowed_file fname \<Longrightarrow> fname \<noteq> []"
  by (auto simp: allowed_file_def)

lemma new_project_result:
  assumes "strip title_field \<noteq> []" and "strip description_field \<noteq> []"
  shows "new_project sf title_field description_field budget_field (Some fname) ts (Some uid) d =
     (Inr (ProjectDetail (next_id (map proj_id (projects d)))), Some uid,
      d\<lparr>uploads := (if allowed_file fname then sf (str_int ts @ ''_'' @ fname) # uploads d
                    else uploads d),
        projects := projects d @
          [\<lparr>proj_id = next_id (map proj_id (projects d)), title = strip title_field,
            description = strip description_field, budget = strip budget_field, owner_id = uid,
            image_file = (if allowed_file fname then Some (sf (str_int ts @ ''_'' @ fname))
                          else None)\<rparr>]\<rparr>)"
  using assms allowed_file_nonempty [of fname] by (auto simp: new_project_def Let_def)

text \<open>
  Claim C7, as stated, fails: \<^const>\<open>new_project\<close> returns before it looks at the file when
  the requester is anonymous or when the title or the description is empty. A request
  with the file \<^verbatim>\<open>photo.png\<close> and an empty title stores nothing and creates no project.
\<close>

theorem new_project_upload_counterexample:
  "''photo.png'' = ''photo'' @ ''.'' @ ''png'' \<and> lower ''png'' \<in> ALLOWED_EXT \<and>
   new_project secure_filename [] ''A logo'' ''$100'' (Some ''photo.png'') 1700000000 (Some 1)
       demo_db = (Inl InvalidInput, Some 1, demo_db) \<and>
   new_project secure_filename ''Logo'' ''A logo'' ''$100'' (Some ''photo.png'') 1700000000 None
       demo_db = (Inl LoginRequired, None, demo_db)"
  by (simp add: new_project_def py_eval)

text \<open>
  Claim C7, amended. For every \<^const>\<open>new_project\<close> by an authenticated user with a title
  and a description that are not empty once stripped, and with an attached file, the
  project is created, owned by that user. The file is saved, and its name recorded on the
  project, exactly when the text after the last dot of the file name, in lower case, is
  one of png, jpg, jpeg, gif; for any other file nothing is saved, the answer is still the
  redirect to the new project, and the project has no image.
\<close>

theorem new_project_upload:
  assumes "strip title_field \<noteq> []" and "strip description_field \<noteq> []"
  shows "\<exists>p d'. new_project sf title_field description_field budget_field (Some fname) ts
              (Some uid) d = (Inr (ProjectDetail (proj_id p)), Some uid, d') \<and>
     projects d' = projects d @ [p] \<and> owner_id p = uid \<and>
     (if \<exists>stem ext. fname = stem @ ''.'' @ ext \<and> CHR ''.'' \<notin> set ext \<and>
           lower ext \<in> {''png'', ''jpg'', ''jpeg'', ''gif''}
      then image_file p = Some (sf (str_int ts @ ''_'' @ fname)) \<and>
           uploads d' = sf (str_int ts @ ''_'' @ fname) # uploads d
      else image_file p = None \<and> uploads d' = uploads d)"
proof -
  define p where
    "p = \<lparr>proj_id = next_id (map proj_id (projects d)), title = strip title_field,
           description = strip description_field, budget = strip budget_field, owner_id = uid,
           image_file = (if allowed_file fname then Some (sf (str_int ts @ ''_'' @ fname))
                         else None)\<rparr>"
  define d' where
    "d' = d\<lparr>uploads := (if allowed_file fname then sf (str_int ts @ ''_'' @ fname) # uploads d
                         else uploads d),
             projects := projects d @ [p]\<rparr>"
  have r: "new_project sf title_field description_field budget_field (Some fname) ts (Some uid) d =
      (Inr (ProjectDetail (proj_id p)), Some uid, d')"
    unfolding new_project_result [OF assms] by (simp add: p_def d'_def)
  have "projects d' = projects d @ [p]" and "owner_id p = uid"
    by (simp_all add: p_def d'_def)
  moreover have "if allowed_file fname
      then image_file p = Some (sf (str_int ts @ ''_'' @ fname)) \<and>
           uploads d' = sf (str_int ts @ ''_'' @ fname) # uploads d
      else image_file p = None \<and> uploads d' = uploads d"
    by (simp add: p_def d'_def)
  ultimately show ?thesis using r unfolding allowed_file_iff by blast
qed

text \<open>
  \<^verbatim>\<open>photo.PNG\<close> is saved and recorded, under the name the sanitizer returns;
  \<^verbatim>\<open>payload.exe\<close> is not, and the project is created all the same.
\<close>

theorem new_project_upload_witness:
  "strip ''Banner'' \<noteq> [] \<and> strip ''A banner'' \<noteq> [] \<and>
   fst (new_project secure_filename ''Banner'' ''A banner'' [] (Some ''photo.PNG'') 1700000000
          (Some 2) demo_db) = Inr (ProjectDetail 2) \<and>
   image_file (last (projects (snd (snd
     (new_project secure_filename ''Banner'' ''A banner'' [] (Some ''photo.PNG'') 1700000000
        (Some 2) demo_db))))) = Some ''1700000000_photo.PNG'' \<and>
   uploads (snd (snd
     (new_project secure_filename ''Banner'' ''A banner'' [] (Some ''photo.PNG'') 1700000000
        (Some 2) demo_db))) = [''1700000000_photo.PNG''] \<and>
   fst (new_project secure_filename ''Banner'' ''A banner'' [] (Some ''payload.exe'') 1700000000
          (Some 2) demo_db) = Inr (ProjectDetail 2) \<and>
   image_file (last (projects (snd (snd
     (new_project secure_filename ''Banner'' ''A banner'' [] (Some ''payload.exe'') 1700000000
        (Some 2) demo_db))))) = None \<and>
   uploads (snd (snd
     (new_project secure_filename ''Banner'' ''A banner'' [] (Some ''payload.exe'') 1700000000
        (Some 2) demo_db))) = []"
proof -
  have h1: "strip ''Banner'' \<noteq> []" and h2: "strip ''A banner'' \<noteq> []"
    by (simp_all add: py_eval)
  have e1: "\<exists>stem ext. ''photo.PNG'' = stem @ ''.'' @ ext \<and> CHR ''.'' \<notin> set ext \<and>
           lower ext \<in> {''png'', ''jpg'', ''jpeg'', ''gif''}"
    unfolding allowed_file_iff [symmetric] by (simp add: py_eval)
  have e2: "\<not> (\<exists>stem ext. ''payload.exe'' = stem @ ''.'' @ ext \<and> CHR ''.'' \<notin> set ext \<and>
           lower ext \<in> {''png'', ''jpg'', ''jpeg'', ''gif''})"
    unfolding allowed_file_iff [symmetric] by (simp add: py_eval)
  have sf: "secure_filename (str_int 1700000000 @ ''_'' @ ''photo.PNG'') = ''1700000000_photo.PNG''"
    by (simp add: sf_eval py_eval)
  have u0: "uploads demo_db = []" by (simp add: demo_db_eq)
  have n: "fst (new_project secure_filename ''Banner'' ''A banner'' [] (Some f) 1700000000
          (Some 2) demo_db) = Inr (ProjectDetail 2)" for f
    by (simp add: new_project_result [OF h1 h2] demo_db_eq logo_project_def next_id_def)
  from new_project_upload [OF h1 h2, of secure_filename "[]" "''photo.PNG''" 1700000000 2 demo_db]
  obtain p :: project and d' where r:
    "new_project secure_filename ''Banner'' ''A banner'' [] (Some ''photo.PNG'') 1700000000 (Some 2)
       demo_db = (Inr (ProjectDetail (proj_id p)), Some 2, d')"
    and l: "projects d' = projects demo_db @ [p]"
    and i: "image_file p = Some ''1700000000_photo.PNG''"
    and u: "uploads d' = ''1700000000_photo.PNG'' # uploads demo_db"
    unfolding if_P [OF e1] sf by (elim exE conjE) (rule that)
  from new_project_upload [OF h1 h2, of secure_filename "[]" "''payload.exe''" 1700000000 2 demo_db]
  obtain q :: project and d'' where r':
    "new_project secure_filename ''Banner'' ''A banner'' [] (Some ''payload.exe'') 1700000000 (Some 2)
       demo_db = (Inr (ProjectDetail (proj_id q)), Some 2, d'')"
    and l': "projects d'' = projects demo_db @ [q]"
    and i': "image_file q = None"
    and u': "uploads d'' = uploads demo_db"
    unfolding if_not_P [OF e2] by (elim exE conjE) (rule that)
  have "image_file (last (projects (snd (snd
     (new_project secure_filename ''Banner'' ''A banner'' [] (Some ''photo.PNG'') 1700000000
        (Some 2) demo_db))))) = Some ''1700000000_photo.PNG''"
    unfolding r by (simp add: l i)
  moreover have "uploads (snd (snd
     (new_project secure_filename ''Banner'' ''A banner'' [] (Some ''photo.PNG'') 1700000000
        (Some 2) demo_db))) = [''1700000000_photo.PNG'']"
    unfolding r by (simp add: u u0)
  moreover have "image_file (last (projects (snd (snd
     (new_project secure_filename ''Banner'' ''A banner'' [] (Some ''payload.exe'') 1700000000
        (Some 2) demo_db))))) = None"
    unfolding r' by (simp add: l' i')
  moreover have "uploads (snd (snd
     (new_project secure_filename ''Banner'' ''A banner'' [] (Some ''payload.exe'') 1700000000
        (Some 2) demo_db))) = []"
    unfolding r' by (simp add: u' u0)
  ultimately show ?thesis using h1 h2 n [of "''photo.PNG''"] n [of "''payload.exe''"]
    by (intro conjI)
qed

section \<open>The name of an upload\<close>
















end
